theory Spec2Isabelle
  imports Complex_Main "HOL-Library.Word"
begin

unbundle bit_operations_syntax

section \<open>The emulated DS2438 battery monitor (class DS2438New)\<close>

text \<open>
  The development follows the C++ class \<open>DS2438New\<close>: its register memory, the per-page
  checksums, the two staged voltages, the value encoders and the command dispatcher
  \<open>duty\<close>.

  Conventions of the embedding.
  \<^item> \<open>uint8_t\<close>, \<open>int8_t\<close>, \<open>uint16_t\<close> and \<open>int16_t\<close> values are words of that width;
    a signed reading is taken with \<open>sint\<close>.  Arithmetic that C++ performs after the
    integral promotion to \<open>int\<close> (\<open>position + length\<close>, \<open>page * 8\<close>, \<open>page << 3\<close>) is
    performed on \<open>nat\<close>, where it cannot wrap; all these values stay below 512.
  \<^item> A C array and a pointer to bytes are modelled by the byte found at each index:
    a function from the index to the byte.  A store \<open>a[i] = v\<close> is \<open>a(i := v)\<close>.  The bounds
    of the arrays (\<open>memory[64]\<close>, \<open>crc[9]\<close>) are not part of the type; that the code
    never stores outside them is proved.
  \<^item> A member function that changes the object takes the object and returns the new one.
  \<^item> Where C++ leaves the result to the implementation, the model follows the compilers
    the code is built with: \<open>>>\<close> on a negative value is the arithmetic shift, and a
    conversion to a narrower or signed type keeps the low bits.
\<close>

type_synonym u8 = "8 word"
type_synonym i8 = "8 word"
type_synonym u16 = "16 word"
type_synonym i16 = "16 word"

subsection \<open>Constants of the header\<close>

abbreviation (input) PAGE_COUNT :: nat where "PAGE_COUNT \<equiv> 8"
abbreviation (input) PAGE_SIZE :: nat where "PAGE_SIZE \<equiv> 8"
abbreviation (input) MEM_SIZE :: nat where "MEM_SIZE \<equiv> PAGE_COUNT * PAGE_SIZE"

abbreviation (input) REG0_MASK_IAD :: u8 where "REG0_MASK_IAD \<equiv> 0x01"
abbreviation (input) REG0_MASK_CA :: u8 where "REG0_MASK_CA \<equiv> 0x02"
abbreviation (input) REG0_MASK_EE :: u8 where "REG0_MASK_EE \<equiv> 0x04"
abbreviation (input) REG0_MASK_AD :: u8 where "REG0_MASK_AD \<equiv> 0x08"
abbreviation (input) REG0_MASK_TB :: u8 where "REG0_MASK_TB \<equiv> 0x10"
abbreviation (input) REG0_MASK_NVB :: u8 where "REG0_MASK_NVB \<equiv> 0x20"
abbreviation (input) REG0_MASK_ADB :: u8 where "REG0_MASK_ADB \<equiv> 0x40"

definition MemDS2438 :: "u8 list" where
  "MemDS2438 =
    [0x09, 0x20, 0x14, 0xAC, 0x00, 0x40, 0x01, 0x00,
     0xEC, 0xAB, 0x23, 0x58, 0xFF, 0x08, 0x00, 0xFC,
     0x00, 0x00, 0x00, 0x00, 0x6D, 0x83, 0x03, 0x02,
     0x00, 0x00, 0x00, 0x00, 0x00, 0x00, 0x00, 0x00,
     0x00, 0x00, 0x00, 0x00, 0x00, 0x00, 0x00, 0x00,
     0x00, 0x00, 0x00, 0x00, 0x00, 0x00, 0x00, 0x00,
     0x00, 0x00, 0x00, 0x00, 0x00, 0x00, 0x00, 0x00,
     0x00, 0x00, 0x00, 0x00, 0x00, 0x00, 0x00, 0x00]"

subsection \<open>The object\<close>

record DS2438New =
  memory :: "nat \<Rightarrow> u8"
  crc :: "nat \<Rightarrow> u8"
  vadVoltage :: "nat \<Rightarrow> u8"
  vddVoltage :: "nat \<Rightarrow> u8"

text \<open>
  \<open>memcpy(dst + off, src, n)\<close>: the \<open>n\<close> bytes \<open>src[0..n-1]\<close> land at \<open>dst[off..off+n-1]\<close>.
\<close>

definition memcpy :: "(nat \<Rightarrow> u8) \<Rightarrow> nat \<Rightarrow> (nat \<Rightarrow> u8) \<Rightarrow> nat \<Rightarrow> (nat \<Rightarrow> u8)" where
  "memcpy dst off src n = (\<lambda>i. if off \<le> i \<and> i < off + n then src (i - off) else dst i)"

text \<open>The argument \<open>(&memory[page * 8], 8)\<close> of \<open>crc8\<close> and of \<open>send\<close>: the 8 bytes of a page.\<close>

definition page_bytes :: "(nat \<Rightarrow> u8) \<Rightarrow> nat \<Rightarrow> u8 list" where
  "page_bytes m page = map m [page * 8 ..< page * 8 + 8]"

subsection \<open>The checksum\<close>

text \<open>
  \<open>crc8\<close> is inherited from the bus library's \<open>OneWireItem\<close> and is not part of this
  class; every function that reaches it takes it as the parameter \<open>crc8\<close>, a function from
  the bytes it is given to the checksum byte.
\<close>

definition calcCRC :: "(u8 list \<Rightarrow> u8) \<Rightarrow> nat \<Rightarrow> DS2438New \<Rightarrow> DS2438New" where
  "calcCRC crc8 page d =
    (if page < PAGE_COUNT
     then d\<lparr>crc := (crc d)(page := crc8 (page_bytes (memory d) page))\<rparr>
     else d)"

definition updateVoltage :: "nat \<Rightarrow> DS2438New \<Rightarrow> DS2438New" where
  "updateVoltage page d =
    (let isVDD = memory d (page * 8) AND REG0_MASK_AD;
         m1 = (memory d)(page * 8 + 3 := (if isVDD \<noteq> 0 then vddVoltage d 0 else vadVoltage d 0));
         m2 = m1(page * 8 + 4 := (if isVDD \<noteq> 0 then vddVoltage d 1 else vadVoltage d 1))
     in d\<lparr>memory := m2\<rparr>)"

text \<open>The loop \<open>for (uint8_t page = page_start; page <= page_end; ++page) calcCRC(page)\<close>
  of \<open>writeMemory\<close>.  \<open>page_end\<close> is at most \<open>(63 + 255) >> 3 = 39\<close> there, so \<open>++page\<close>
  never wraps.\<close>

function calcCRC_loop :: "(u8 list \<Rightarrow> u8) \<Rightarrow> nat \<Rightarrow> nat \<Rightarrow> DS2438New \<Rightarrow> DS2438New" where
  "calcCRC_loop crc8 page page_end d =
    (if page \<le> page_end then calcCRC_loop crc8 (Suc page) page_end (calcCRC crc8 page d) else d)"
  by pat_completeness auto
termination
  by (relation "measure (\<lambda>(crc8, page, page_end, d). Suc page_end - page)") auto

declare calcCRC_loop.simps [simp del]

text \<open>The loop \<open>for (uint8_t page = 0; page < PAGE_COUNT; ++page) calcCRC(page)\<close> of
  \<open>clearMemory\<close>, from the value \<open>page\<close> of its counter on.\<close>

function clearMemory_loop :: "(u8 list \<Rightarrow> u8) \<Rightarrow> nat \<Rightarrow> DS2438New \<Rightarrow> DS2438New" where
  "clearMemory_loop crc8 page d =
    (if page < PAGE_COUNT then clearMemory_loop crc8 (Suc page) (calcCRC crc8 page d) else d)"
  by pat_completeness auto
termination
  by (relation "measure (\<lambda>(crc8, page, d). PAGE_COUNT - page)") auto

declare clearMemory_loop.simps [simp del]

definition clearMemory :: "(u8 list \<Rightarrow> u8) \<Rightarrow> DS2438New \<Rightarrow> DS2438New" where
  "clearMemory crc8 d =
    (let m = memcpy (memory d) 0 (\<lambda>i. MemDS2438 ! i) (PAGE_COUNT * PAGE_SIZE);
         m = m(0 := m 0 OR REG0_MASK_IAD);
         m = m(0 := m 0 OR REG0_MASK_CA);
         m = m(0 := m 0 AND NOT REG0_MASK_AD);
         m = m(0 := m 0 AND NOT REG0_MASK_TB);
         m = m(0 := m 0 AND NOT REG0_MASK_NVB);
         m = m(0 := m 0 AND NOT REG0_MASK_ADB)
     in clearMemory_loop crc8 0 (d\<lparr>memory := m\<rparr>))"

text \<open>The constructor: the members hold whatever they held; \<open>clearMemory\<close> is called.\<close>

definition DS2438New_init :: "(u8 list \<Rightarrow> u8) \<Rightarrow> DS2438New \<Rightarrow> DS2438New" where
  "DS2438New_init crc8 d = clearMemory crc8 d"

subsection \<open>Direct access to the register memory\<close>

definition writeMemory ::
  "(u8 list \<Rightarrow> u8) \<Rightarrow> (nat \<Rightarrow> u8) \<Rightarrow> u8 \<Rightarrow> u8 \<Rightarrow> DS2438New \<Rightarrow> bool \<times> DS2438New" where
  "writeMemory crc8 source len position d =
    (if unat position \<ge> MEM_SIZE then (False, d)
     else
       let len' = (if unat position + unat len \<ge> MEM_SIZE
                   then MEM_SIZE - unat position else unat len);
           d1 = d\<lparr>memory := memcpy (memory d) (unat position) source len'\<rparr>;
           page_start = drop_bit 3 (unat position);
           page_end = drop_bit 3 (unat position + unat len)
       in (True, calcCRC_loop crc8 page_start page_end d1))"

text \<open>\<open>readMemory\<close> is a \<open>const\<close> member: it returns its result and the destination buffer
  after the call; the object is returned as well, as the code leaves it.\<close>

definition readMemory ::
  "(nat \<Rightarrow> u8) \<Rightarrow> u8 \<Rightarrow> u8 \<Rightarrow> DS2438New \<Rightarrow> bool \<times> (nat \<Rightarrow> u8) \<times> DS2438New" where
  "readMemory destination len position d =
    (if unat position \<ge> MEM_SIZE then (False, destination, d)
     else
       let len' = (if unat position + unat len \<ge> MEM_SIZE
                   then MEM_SIZE - unat position else unat len)
       in (len' = unat len,
           memcpy destination 0 (\<lambda>i. memory d (unat position + i)) len', d))"

subsection \<open>The value encoders\<close>

text \<open>
  \<open>static_cast<int16_t>(temp_degC * 256.0)\<close>.  The argument ranges over the real numbers that
  finite floating-point values denote.  Multiplying a binary floating-point number by
  256 only changes its exponent, so the product is the exact one; the cast truncates
  towards zero and is undefined in C++ when the truncated value does not fit 16 bits:
  that is \<open>None\<close>.
\<close>

definition trunc_toward_zero :: "real \<Rightarrow> int" where
  "trunc_toward_zero x = (if 0 \<le> x then \<lfloor>x\<rfloor> else \<lceil>x\<rceil>)"

definition float_to_int16 :: "real \<Rightarrow> i16 option" where
  "float_to_int16 x =
    (let k = trunc_toward_zero x
     in if - 32768 \<le> k \<and> k \<le> 32767 then Some (word_of_int k) else None)"

definition setTemperature_float :: "(u8 list \<Rightarrow> u8) \<Rightarrow> real \<Rightarrow> DS2438New \<Rightarrow> DS2438New option" where
  "setTemperature_float crc8 temp_degC d =
    (case float_to_int16 (temp_degC * 256) of
       None \<Rightarrow> None
     | Some v0 \<Rightarrow>
         let v1 = (if sint v0 > 125 * 256 then word_of_int (125 * 256) else v0);
             v2 = (if sint v1 < - 55 * 256 then word_of_int (- 55 * 256) else v1);
             m1 = (memory d)(1 := ucast (v2 AND 0xF8));
             m2 = m1(2 := ucast (signed_drop_bit 8 v2))
         in Some (calcCRC crc8 0 (d\<lparr>memory := m2\<rparr>)))"

definition setTemperature_int8 :: "(u8 list \<Rightarrow> u8) \<Rightarrow> i8 \<Rightarrow> DS2438New \<Rightarrow> DS2438New" where
  "setTemperature_int8 crc8 temp_degC d =
    (let v0 = temp_degC;
         v1 = (if sint v0 > 125 then 125 else v0);
         v2 = (if sint v1 < - 55 then word_of_int (- 55) else v1);
         m1 = (memory d)(1 := 0);
         m2 = m1(2 := v2)
     in calcCRC crc8 0 (d\<lparr>memory := m2\<rparr>))"

definition getTemperature :: "DS2438New \<Rightarrow> i8" where
  "getTemperature d = memory d 2"

definition setVADVoltage :: "u16 \<Rightarrow> DS2438New \<Rightarrow> DS2438New" where
  "setVADVoltage voltage_10mV d =
    (let a1 = (vadVoltage d)(0 := ucast (voltage_10mV AND 0xFF));
         a2 = a1(1 := ucast (drop_bit 8 voltage_10mV AND 0x03))
     in d\<lparr>vadVoltage := a2\<rparr>)"

definition getVADVoltage :: "DS2438New \<Rightarrow> u16" where
  "getVADVoltage d = push_bit 8 (ucast (vadVoltage d 1)) OR ucast (vadVoltage d 0)"

definition setVDDVoltage :: "u16 \<Rightarrow> DS2438New \<Rightarrow> DS2438New" where
  "setVDDVoltage voltage_10mV d =
    (let a1 = (vddVoltage d)(0 := ucast (voltage_10mV AND 0xFF));
         a2 = a1(1 := ucast (drop_bit 8 voltage_10mV AND 0x03))
     in d\<lparr>vddVoltage := a2\<rparr>)"

definition getVDDVoltage :: "DS2438New \<Rightarrow> u16" where
  "getVDDVoltage d = push_bit 8 (ucast (vddVoltage d 1)) OR ucast (vddVoltage d 0)"

definition setCurrent :: "(u8 list \<Rightarrow> u8) \<Rightarrow> i16 \<Rightarrow> DS2438New \<Rightarrow> DS2438New" where
  "setCurrent crc8 v d =
    (let m1 = (memory d)(5 := ucast (v AND 0xFF));
         m2 = m1(6 := ucast (signed_drop_bit 8 v AND 0x03));
         m3 = (if sint v < 0 then m2(6 := m2 6 OR 0xFC) else m2)
     in calcCRC crc8 0 (d\<lparr>memory := m3\<rparr>))"

definition getCurrent :: "DS2438New \<Rightarrow> i16" where
  "getCurrent d = push_bit 8 (ucast (memory d 6)) OR ucast (memory d 5)"

subsection \<open>The bus transport\<close>

text \<open>
  Modelled from the spec: the transport engine \<open>OneWireHub\<close> that \<open>duty\<close> is handed is a
  collaborator outside this repository; only its interface is known (receive a byte,
  send bytes, each reporting failure, and signal a protocol error with the offending
  byte).  The model keeps what \<open>duty\<close> can observe of it:
  \<^item> \<open>rx\<close>: the bytes the master delivers from now on; receiving from the empty list is the
    failure of \<open>recv\<close> (the C++ \<open>recv\<close> returns true);
  \<^item> \<open>tx_room\<close>: how many more bytes the transport will manage to send before \<open>send\<close> fails;
  \<^item> \<open>tx\<close>: the bytes sent so far, in order;
  \<^item> \<open>slave_errors\<close>: the arguments of the calls of \<open>raiseSlaveError\<close> so far, in order.
  \<open>duty\<close> stops calling the transport after the first failure, so a failure at any point
  of a transaction is a choice of \<open>rx\<close> and \<open>tx_room\<close>.
\<close>

record OneWireHub =
  rx :: "u8 list"
  tx_room :: nat
  tx :: "u8 list"
  slave_errors :: "u8 list"

text \<open>Modelled from the spec: \<open>receiveByte() -> (byte, ok)\<close>, the C++ \<open>hub->recv(&b, 1)\<close>;
  \<open>None\<close> is the failure (no byte), on which the C++ \<open>recv\<close> returns true.\<close>

definition recv :: "OneWireHub \<Rightarrow> (u8 \<times> OneWireHub) option" where
  "recv h = (case rx h of [] \<Rightarrow> None | b # bs \<Rightarrow> Some (b, h\<lparr>rx := bs\<rparr>))"

text \<open>Modelled from the spec: \<open>sendBytes(bytes) -> ok\<close>, the C++ \<open>hub->send(data, n)\<close> and
  \<open>hub->send(byte)\<close>.  The first component of the result is the C++ result: true for a
  failure.  A failing \<open>send\<close> has sent the bytes there was room for.\<close>

definition send :: "u8 list \<Rightarrow> OneWireHub \<Rightarrow> bool \<times> OneWireHub" where
  "send bs h =
    (if length bs \<le> tx_room h
     then (False, h\<lparr>tx_room := tx_room h - length bs, tx := tx h @ bs\<rparr>)
     else (True, h\<lparr>tx_room := 0, tx := tx h @ take (tx_room h) bs\<rparr>))"

text \<open>Modelled from the spec: \<open>signalProtocolError(code)\<close>, the C++
  \<open>hub->raiseSlaveError(cmd)\<close>; the call is recorded with its argument.\<close>

definition raiseSlaveError :: "u8 \<Rightarrow> OneWireHub \<Rightarrow> OneWireHub" where
  "raiseSlaveError cmd h = h\<lparr>slave_errors := slave_errors h @ [cmd]\<rparr>"

subsection \<open>The command dispatcher\<close>

text \<open>
  The loop of Write Scratchpad,
  \<open>for (uint8_t nByte = page<<3; nByte < (page+1)<<3; ++nByte)\<close>.  It is entered with
  \<open>page < 8\<close> only, so \<open>nByte\<close> is at most 64 and \<open>++nByte\<close> never wraps.  A failing
  \<open>recv\<close> is the \<open>break\<close>; a byte for \<open>0 < nByte < 7\<close> is received and dropped (the
  \<open>continue\<close>).
\<close>

function write_loop :: "nat \<Rightarrow> nat \<Rightarrow> DS2438New \<Rightarrow> OneWireHub \<Rightarrow> DS2438New \<times> OneWireHub" where
  "write_loop nByte bound d h =
    (if nByte < bound then
       (case recv h of
          None \<Rightarrow> (d, h)
        | Some (data, h') \<Rightarrow>
            if nByte < 7 \<and> nByte > 0 then write_loop (Suc nByte) bound d h'
            else write_loop (Suc nByte) bound (d\<lparr>memory := (memory d)(nByte := data)\<rparr>) h')
     else (d, h))"
  by pat_completeness auto
termination
  by (relation "measure (\<lambda>(nByte, bound, d, h). bound - nByte)") auto

declare write_loop.simps [simp del]

definition duty :: "(u8 list \<Rightarrow> u8) \<Rightarrow> DS2438New \<Rightarrow> OneWireHub \<Rightarrow> DS2438New \<times> OneWireHub" where
  "duty crc8 d h =
    (case recv h of
       None \<Rightarrow> (d, h)
     | Some (cmd, h1) \<Rightarrow>
         if cmd = 0xBE then
           (case recv h1 of
              None \<Rightarrow> (d, h1)
            | Some (page, h2) \<Rightarrow>
                if unat page \<ge> PAGE_COUNT then (d, h2)
                else
                  (case send (page_bytes (memory d) (unat page)) h2 of
                     (True, h3) \<Rightarrow> (d, h3)
                   | (False, h3) \<Rightarrow> (d, snd (send [crc d (unat page)] h3))))
         else if cmd = 0x4E then
           (case recv h1 of
              None \<Rightarrow> (d, h1)
            | Some (page, h2) \<Rightarrow>
                if unat page \<ge> PAGE_COUNT then (d, h2)
                else
                  (case write_loop (push_bit 3 (unat page)) (push_bit 3 (unat page + 1)) d h2 of
                     (d', h3) \<Rightarrow> (calcCRC crc8 (unat page) d', h3)))
         else if cmd = 0x48 then
           (case recv h1 of
              None \<Rightarrow> (d, h1)
            | Some (page, h2) \<Rightarrow> if unat page \<ge> PAGE_COUNT then (d, h2) else (d, h2))
         else if cmd = 0xB8 then
           (case recv h1 of
              None \<Rightarrow> (d, h1)
            | Some (page, h2) \<Rightarrow> if unat page \<ge> PAGE_COUNT then (d, h2) else (d, h2))
         else if cmd = 0x44 then (calcCRC crc8 0 d, h1)
         else if cmd = 0xB4 then (calcCRC crc8 0 (updateVoltage 0 d), h1)
         else (d, raiseSlaveError cmd h1))"

subsection \<open>Checksum consistency and the states of an object\<close>

text \<open>The checksum stored for every page is the checksum of the bytes of that page.\<close>

definition crc_ok :: "(u8 list \<Rightarrow> u8) \<Rightarrow> DS2438New \<Rightarrow> bool" where
  "crc_ok crc8 d = list_all (\<lambda>p. crc d p = crc8 (page_bytes (memory d) p)) [0 ..< PAGE_COUNT]"

text \<open>
  The states an object can be in when a public member function has returned: the state
  the constructor leaves, and from there the state after any public member function,
  with any arguments and, for \<open>duty\<close>, any transport.  The float-valued \<open>setTemperature\<close>
  contributes the calls whose cast is defined.
\<close>

inductive reachable :: "(u8 list \<Rightarrow> u8) \<Rightarrow> DS2438New \<Rightarrow> bool" for crc8 :: "u8 list \<Rightarrow> u8" where
  r_init: "reachable crc8 (DS2438New_init crc8 d0)"
| r_clearMemory: "reachable crc8 d \<Longrightarrow> reachable crc8 (clearMemory crc8 d)"
| r_writeMemory: "reachable crc8 d \<Longrightarrow> reachable crc8 (snd (writeMemory crc8 source len position d))"
| r_readMemory: "reachable crc8 d \<Longrightarrow> reachable crc8 (snd (snd (readMemory destination len position d)))"
| r_setTemperature_float:
    "reachable crc8 d \<Longrightarrow> setTemperature_float crc8 temp_degC d = Some d' \<Longrightarrow> reachable crc8 d'"
| r_setTemperature_int8: "reachable crc8 d \<Longrightarrow> reachable crc8 (setTemperature_int8 crc8 temp d)"
| r_setVADVoltage: "reachable crc8 d \<Longrightarrow> reachable crc8 (setVADVoltage voltage_10mV d)"
| r_setVDDVoltage: "reachable crc8 d \<Longrightarrow> reachable crc8 (setVDDVoltage voltage_10mV d)"
| r_setCurrent: "reachable crc8 d \<Longrightarrow> reachable crc8 (setCurrent crc8 v d)"
| r_duty: "reachable crc8 d \<Longrightarrow> reachable crc8 (fst (duty crc8 d h))"

section \<open>Properties\<close>

subsection \<open>Pages and checksums\<close>

lemma page_bytes_cong:
  "(\<And>i. page * 8 \<le> i \<Longrightarrow> i < page * 8 + 8 \<Longrightarrow> m i = m' i) \<Longrightarrow> page_bytes m page = page_bytes m' page"
  by (simp add: page_bytes_def)

lemma calcCRC_fields [simp]:
  "memory (calcCRC crc8 page d) = memory d"
  "vadVoltage (calcCRC crc8 page d) = vadVoltage d"
  "vddVoltage (calcCRC crc8 page d) = vddVoltage d"
  by (simp_all add: calcCRC_def)

lemma crc_calcCRC:
  "crc (calcCRC crc8 page d) =
     (if page < 8 then (crc d)(page := crc8 (page_bytes (memory d) page)) else crc d)"
  by (simp add: calcCRC_def)

lemma calcCRC_out_of_range: "8 \<le> page \<Longrightarrow> calcCRC crc8 page d = d"
  by (simp add: calcCRC_def)

lemma calcCRC_loop_fields [simp]:
  "memory (calcCRC_loop crc8 page page_end d) = memory d"
  "vadVoltage (calcCRC_loop crc8 page page_end d) = vadVoltage d"
  "vddVoltage (calcCRC_loop crc8 page page_end d) = vddVoltage d"
  by (induction crc8 page page_end d rule: calcCRC_loop.induct; subst calcCRC_loop.simps; simp)+

lemma crc_calcCRC_loop:
  "crc (calcCRC_loop crc8 page page_end d) p =
     (if page \<le> p \<and> p \<le> page_end \<and> p < 8 then crc8 (page_bytes (memory d) p) else crc d p)"
proof (induction crc8 page page_end d rule: calcCRC_loop.induct)
  case (1 crc8 page page_end d)
  show ?case
  proof (cases "page \<le> page_end")
    case True
    then show ?thesis
      using 1 by (subst calcCRC_loop.simps) (auto simp add: crc_calcCRC)
  next
    case False
    then show ?thesis by (subst calcCRC_loop.simps) auto
  qed
qed

lemma clearMemory_loop_fields [simp]:
  "memory (clearMemory_loop crc8 page d) = memory d"
  "vadVoltage (clearMemory_loop crc8 page d) = vadVoltage d"
  "vddVoltage (clearMemory_loop crc8 page d) = vddVoltage d"
  by (induction crc8 page d rule: clearMemory_loop.induct; subst clearMemory_loop.simps; simp)+

lemma crc_clearMemory_loop:
  "crc (clearMemory_loop crc8 page d) p =
     (if page \<le> p \<and> p < 8 then crc8 (page_bytes (memory d) p) else crc d p)"
proof (induction crc8 page d rule: clearMemory_loop.induct)
  case (1 crc8 page d)
  show ?case
  proof (cases "page < 8")
    case True
    then show ?thesis
      using 1 by (subst clearMemory_loop.simps) (auto simp add: crc_calcCRC)
  next
    case False
    then show ?thesis by (subst clearMemory_loop.simps) auto
  qed
qed

lemma crc_ok_iff: "crc_ok crc8 d \<longleftrightarrow> (\<forall>p<8. crc d p = crc8 (page_bytes (memory d) p))"
  by (auto simp add: crc_ok_def list_all_iff)

lemma crc_ok_calcCRC:
  assumes "crc_ok crc8 d" "q < 8" "crc d1 = crc d"
    and "\<And>i. \<not> (q * 8 \<le> i \<and> i < q * 8 + 8) \<Longrightarrow> memory d1 i = memory d i"
  shows "crc_ok crc8 (calcCRC crc8 q d1)"
  unfolding crc_ok_iff
proof (intro allI impI)
  fix p :: nat assume p: "p < 8"
  show "crc (calcCRC crc8 q d1) p = crc8 (page_bytes (memory (calcCRC crc8 q d1)) p)"
  proof (cases "p = q")
    case True
    then show ?thesis using assms(2) by (simp add: crc_calcCRC)
  next
    case False
    have "page_bytes (memory d1) p = page_bytes (memory d) p"
      using False by (intro page_bytes_cong assms(4)) arith
    then show ?thesis using assms(1,2,3) p False by (simp add: crc_calcCRC crc_ok_iff)
  qed
qed

lemma crc_ok_clearMemory: "crc_ok crc8 (clearMemory crc8 d)"
  by (simp add: crc_ok_iff clearMemory_def Let_def crc_clearMemory_loop)


lemma write_loop_fields [simp]:
  "crc (fst (write_loop nByte bound d h)) = crc d"
  "vadVoltage (fst (write_loop nByte bound d h)) = vadVoltage d"
  "vddVoltage (fst (write_loop nByte bound d h)) = vddVoltage d"
  "tx (snd (write_loop nByte bound d h)) = tx h"
  "tx_room (snd (write_loop nByte bound d h)) = tx_room h"
  "slave_errors (snd (write_loop nByte bound d h)) = slave_errors h"
  by (induction nByte bound d h rule: write_loop.induct; subst write_loop.simps;
      simp add: recv_def split: list.splits)+

lemma rx_write_loop:
  "rx (snd (write_loop nByte bound d h)) = drop (bound - nByte) (rx h)"
proof (induction nByte bound d h rule: write_loop.induct)
  case (1 nByte bound d h)
  show ?case
  proof (cases "nByte < bound")
    case True
    then have "bound - nByte = Suc (bound - Suc nByte)" by simp
    then show ?thesis
      using 1 True by (subst write_loop.simps) (simp add: recv_def split: list.splits)
  next
    case False
    then show ?thesis by (subst write_loop.simps) simp
  qed
qed

lemma memory_write_loop:
  "memory (fst (write_loop nByte bound d h)) i =
     (if nByte \<le> i \<and> i < bound \<and> i - nByte < length (rx h) \<and> \<not> (i < 7 \<and> i > 0)
      then rx h ! (i - nByte) else memory d i)"
proof (induction nByte bound d h arbitrary: i rule: write_loop.induct)
  case (1 nByte bound d h)
  show ?case
  proof (cases "nByte < bound")
    case False
    then show ?thesis by (subst write_loop.simps) auto
  next
    case True
    show ?thesis
    proof (cases "rx h")
      case Nil
      then show ?thesis using True by (subst write_loop.simps) (simp add: recv_def)
    next
      case (Cons b bs)
      then have r: "recv h = Some (b, h\<lparr>rx := bs\<rparr>)" by (simp add: recv_def)
      show ?thesis
      proof (cases "nByte < 7 \<and> nByte > 0")
        case True
        note prot = this
        have "memory (fst (write_loop nByte bound d h)) i
              = memory (fst (write_loop (Suc nByte) bound d (h\<lparr>rx := bs\<rparr>))) i"
          using \<open>nByte < bound\<close> r prot by (subst write_loop.simps) simp
        also have "\<dots> = (if Suc nByte \<le> i \<and> i < bound \<and> i - Suc nByte < length bs \<and> \<not> (i < 7 \<and> i > 0)
                then bs ! (i - Suc nByte) else memory d i)"
          using "1.IH"(1)[OF \<open>nByte < bound\<close> r refl prot, of i] by auto
        finally show ?thesis using Cons prot
          by (auto simp add: nth_Cons' Suc_diff_Suc)
      next
        case False
        note unprot = this
        have "memory (fst (write_loop nByte bound d h)) i
              = memory (fst (write_loop (Suc nByte) bound (d\<lparr>memory := (memory d)(nByte := b)\<rparr>) (h\<lparr>rx := bs\<rparr>))) i"
          using \<open>nByte < bound\<close> r unprot by (subst write_loop.simps) auto
        also have "\<dots> = (if Suc nByte \<le> i \<and> i < bound \<and> i - Suc nByte < length bs \<and> \<not> (i < 7 \<and> i > 0)
                then bs ! (i - Suc nByte) else ((memory d)(nByte := b)) i)"
          using "1.IH"(2)[OF \<open>nByte < bound\<close> r refl unprot, of i] by auto
        finally show ?thesis using Cons unprot \<open>nByte < bound\<close>
          by (auto simp add: nth_Cons' Suc_diff_Suc)
      qed
    qed
  qed
qed


lemma duty_write_page:
  assumes "rx h = 0x4E # page # bs" "unat page < 8"
  shows "duty crc8 d h =
    (calcCRC crc8 (unat page) (fst (write_loop (unat page * 8) ((unat page + 1) * 8) d (h\<lparr>rx := bs\<rparr>))),
     snd (write_loop (unat page * 8) ((unat page + 1) * 8) d (h\<lparr>rx := bs\<rparr>)))"
  using assms by (simp add: duty_def recv_def push_bit_eq_mult case_prod_unfold)

lemma duty_crc_ok:
  assumes "crc_ok crc8 d"
  shows "crc_ok crc8 (fst (duty crc8 d h))"
proof (cases "rx h")
  case Nil
  then show ?thesis using assms by (simp add: duty_def recv_def)
next
  case (Cons cmd rest)
  consider (rd) "cmd = 0xBE" | (wr) "cmd = 0x4E" | (cp) "cmd = 0x48" | (rc) "cmd = 0xB8"
    | (ct) "cmd = 0x44" | (cv) "cmd = 0xB4"
    | (other) "cmd \<notin> {0xBE, 0x4E, 0x48, 0xB8, 0x44, 0xB4}" by auto
  then show ?thesis
  proof cases
    case rd
    then show ?thesis using assms Cons
      by (simp add: duty_def recv_def split: list.splits prod.splits bool.splits)
  next
    case wr
    show ?thesis
    proof (cases rest)
      case Nil
      then show ?thesis using assms Cons wr by (simp add: duty_def recv_def)
    next
      case (Cons page bs)
      show ?thesis
      proof (cases "unat page < 8")
        case False
        then show ?thesis using assms \<open>rx h = cmd # rest\<close> Cons wr by (simp add: duty_def recv_def)
      next
        case True
        have "rx h = 0x4E # page # bs" using \<open>rx h = cmd # rest\<close> Cons wr by simp
        note eq = duty_write_page[OF this True]
        show ?thesis
          unfolding eq fst_conv
          by (rule crc_ok_calcCRC[OF assms True]) (auto simp add: memory_write_loop)
      qed
    qed
  next
    case cp
    then show ?thesis using assms Cons
      by (simp add: duty_def recv_def split: list.splits)
  next
    case rc
    then show ?thesis using assms Cons
      by (simp add: duty_def recv_def split: list.splits)
  next
    case ct
    have "fst (duty crc8 d h) = calcCRC crc8 0 d" using ct Cons by (simp add: duty_def recv_def)
    then show ?thesis using crc_ok_calcCRC[OF assms, of 0 d] by simp
  next
    case cv
    have "fst (duty crc8 d h) = calcCRC crc8 0 (updateVoltage 0 d)"
      using cv Cons by (simp add: duty_def recv_def)
    moreover have "crc_ok crc8 (calcCRC crc8 0 (updateVoltage 0 d))"
      by (rule crc_ok_calcCRC[OF assms]) (auto simp add: updateVoltage_def Let_def)
    ultimately show ?thesis by simp
  next
    case other
    then show ?thesis using assms Cons by (simp add: duty_def recv_def)
  qed
qed

subsection \<open>Bits of the masks\<close>

lemma bit_0xFF: "bit (0xFF :: int) n \<longleftrightarrow> n < 8"
proof -
  have "(0xFF :: int) = mask 8" by (simp add: mask_eq_exp_minus_1)
  then show ?thesis by (simp only: bit_mask_iff) auto
qed

lemma bit_0x03: "bit (0x03 :: int) n \<longleftrightarrow> n < 2"
proof -
  have "(0x03 :: int) = mask 2" by (simp add: mask_eq_exp_minus_1)
  then show ?thesis by (simp only: bit_mask_iff) auto
qed

lemma bit_0x3FF: "bit (0x3FF :: int) n \<longleftrightarrow> n < 10"
proof -
  have "(0x3FF :: int) = mask 10" by (simp add: mask_eq_exp_minus_1)
  then show ?thesis by (simp only: bit_mask_iff) auto
qed

lemma bit_0xFC: "bit (0xFC :: int) n \<longleftrightarrow> 2 \<le> n \<and> n < 8"
proof -
  have "(0xFC :: int) = push_bit 2 (mask 6)" by (simp add: mask_eq_exp_minus_1)
  then show ?thesis by (simp only: bit_push_bit_iff bit_mask_iff) auto
qed

lemmas bit_consts = bit_0xFF bit_0x03 bit_0x3FF bit_0xFC

lemma and_0x3FF_take_bit: "(v :: u16) AND 0x3FF = take_bit 10 v"
  by (rule bit_word_eqI) (auto simp add: bit_simps bit_consts)

lemma unat_and_0x3FF: "unat ((v :: u16) AND 0x3FF) = unat v mod 1024"
proof -
  have "unat (take_bit 10 v) = take_bit 10 (unat v)" by (rule unsigned_take_bit_eq)
  also have "\<dots> = unat v mod 2 ^ 10" by (rule take_bit_eq_mod)
  finally show ?thesis unfolding and_0x3FF_take_bit by simp
qed

lemma and_0x3FF_id: "unat (v :: u16) \<le> 1023 \<Longrightarrow> v AND 0x3FF = v"
  by (rule word_unat_eq_iff [THEN iffD2]) (simp add: unat_and_0x3FF)

subsection \<open>The voltage encoders\<close>

lemma getVADVoltage_setVADVoltage: "getVADVoltage (setVADVoltage v d) = v AND 0x3FF"
  unfolding getVADVoltage_def setVADVoltage_def Let_def
  apply simp
  apply (rule bit_word_eqI)
  apply (auto simp add: bit_simps bit_consts)
  done

lemma getVDDVoltage_setVDDVoltage: "getVDDVoltage (setVDDVoltage v d) = v AND 0x3FF"
  unfolding getVDDVoltage_def setVDDVoltage_def Let_def
  apply simp
  apply (rule bit_word_eqI)
  apply (auto simp add: bit_simps bit_consts)
  done

text \<open>
  C5: for every voltage \<open>v\<close> with \<open>0 \<le> v \<le> 1023\<close>, on each of the two channels, the getter
  called after the setter with \<open>v\<close> returns exactly \<open>v\<close>.
\<close>

theorem voltage_roundtrip:
  "unat v \<le> 1023 \<Longrightarrow>
     getVADVoltage (setVADVoltage v d) = v \<and> getVDDVoltage (setVDDVoltage v d) = v"
  by (simp add: getVADVoltage_setVADVoltage getVDDVoltage_setVDDVoltage and_0x3FF_id)

theorem voltage_roundtrip_witness:
  "unat (1023 :: u16) \<le> 1023 \<and>
   getVADVoltage (setVADVoltage 1023
     \<lparr>memory = \<lambda>_. 0, crc = \<lambda>_. 0, vadVoltage = \<lambda>_. 0, vddVoltage = \<lambda>_. 0\<rparr>) = 1023 \<and>
   getVDDVoltage (setVDDVoltage 1023
     \<lparr>memory = \<lambda>_. 0, crc = \<lambda>_. 0, vadVoltage = \<lambda>_. 0, vddVoltage = \<lambda>_. 0\<rparr>) = 1023"
  using voltage_roundtrip [of 1023
    "\<lparr>memory = \<lambda>_. 0, crc = \<lambda>_. 0, vadVoltage = \<lambda>_. 0, vddVoltage = \<lambda>_. 0\<rparr>"]
  by simp

text \<open>
  C9: for every 16-bit \<open>v\<close>, also above 1023, on each of the two channels, the getter called
  after the setter with \<open>v\<close> returns the low 10 bits of \<open>v\<close>, that is \<open>v mod 1024\<close>: the
  encoder reduces the value, it neither rejects nor clamps it.
\<close>

theorem voltage_reduced_mod_1024:
  "getVADVoltage (setVADVoltage v d) = v AND 0x3FF \<and>
   unat (getVADVoltage (setVADVoltage v d)) = unat v mod 1024 \<and>
   getVDDVoltage (setVDDVoltage v d) = v AND 0x3FF \<and>
   unat (getVDDVoltage (setVDDVoltage v d)) = unat v mod 1024"
  by (simp add: getVADVoltage_setVADVoltage getVDDVoltage_setVDDVoltage unat_and_0x3FF)

subsection \<open>The current encoder\<close>

lemma sint_range_bits:
  fixes c :: i16
  assumes "- 1024 \<le> sint c" "sint c \<le> 1023" "10 \<le> n" "n < 16"
  shows "bit c n \<longleftrightarrow> sint c < 0"
proof -
  have s: "signed_take_bit 10 (sint c) = sint c"
    using assms by (simp add: signed_take_bit_int_eq_self_iff)
  have a: "bit (sint c) m \<longleftrightarrow> bit (sint c) 10" if "10 \<le> m" for m
  proof -
    have "bit (sint c) m \<longleftrightarrow> bit (signed_take_bit 10 (sint c)) m" by (simp only: s)
    also have "\<dots> \<longleftrightarrow> bit (sint c) 10" using that by (simp add: bit_signed_take_bit_iff min_def)
    finally show ?thesis .
  qed
  have "bit c n \<longleftrightarrow> bit (sint c) n" using assms by (simp add: bit_sint_iff)
  also have "\<dots> \<longleftrightarrow> bit (sint c) 15" using a[of n] a[of 15] assms by simp
  also have "\<dots> \<longleftrightarrow> bit c 15" by (simp add: bit_sint_iff)
  also have "\<dots> \<longleftrightarrow> sint c < 0" using bit_last_iff[of c] by simp
  finally show ?thesis .
qed

lemma getCurrent_setCurrent:
  assumes "- 1024 \<le> sint c" "sint c \<le> 1023"
  shows "getCurrent (setCurrent crc8 c d) = c"
proof -
  have b: "bit c n \<longleftrightarrow> sint c < 0" if "10 \<le> n" "n < 16" for n
    using sint_range_bits[OF assms that] .
  have b': "n < 10" if "bit c n" "\<not> sint c < 0" for n
  proof (rule ccontr)
    assume "\<not> n < 10"
    moreover have "n < 16" using that(1) by (auto dest: bit_imp_le_length)
    ultimately show False using b[of n] that by simp
  qed
  show ?thesis
  proof (cases "sint c < 0")
    case True
    show ?thesis
      unfolding getCurrent_def setCurrent_def Let_def calcCRC_def
      apply (simp add: True)
      apply (rule bit_word_eqI)
      apply (auto simp add: bit_simps bit_consts b True)
      done
  next
    case False
    show ?thesis
      unfolding getCurrent_def setCurrent_def Let_def calcCRC_def
      apply (simp add: False)
      apply (rule bit_word_eqI)
      apply (auto simp add: bit_simps bit_consts dest: b'[OF _ False])
      done
  qed
qed

lemma ucast_and_3_and_0xFC: "(ucast ((x :: i16) AND 0x03) :: u8) AND 0xFC = 0"
  by (rule bit_word_eqI) (auto simp add: bit_simps bit_consts)

lemma setCurrent_sign_bits:
  "memory (setCurrent crc8 c d) 6 AND 0xFC = (if sint c < 0 then 0xFC else 0)"
  unfolding setCurrent_def Let_def calcCRC_def
  by (simp add: ucast_and_3_and_0xFC)

text \<open>
  C4: for every \<open>c\<close> with \<open>-1024 \<le> c \<le> 1023\<close>, \<open>getCurrent\<close> called after \<open>setCurrent(c)\<close>
  returns exactly \<open>c\<close>; and after \<open>setCurrent(c)\<close> the upper six bits of the high current
  byte (page 0, byte 6) are all set when \<open>c\<close> is negative and all clear when it is not.
\<close>

theorem current_roundtrip:
  "- 1024 \<le> sint c \<Longrightarrow> sint c \<le> 1023 \<Longrightarrow>
     getCurrent (setCurrent crc8 c d) = c \<and>
     memory (setCurrent crc8 c d) 6 AND 0xFC = (if sint c < 0 then 0xFC else 0)"
  by (simp add: getCurrent_setCurrent setCurrent_sign_bits)

theorem current_roundtrip_witness:
  "- 1024 \<le> sint (- 1024 :: i16) \<and> sint (- 1024 :: i16) \<le> 1023 \<and>
   getCurrent (setCurrent (\<lambda>bs. sum_list bs) (- 1024)
     \<lparr>memory = \<lambda>_. 0, crc = \<lambda>_. 0, vadVoltage = \<lambda>_. 0, vddVoltage = \<lambda>_. 0\<rparr>) = - 1024 \<and>
   memory (setCurrent (\<lambda>bs. sum_list bs) (- 1024)
     \<lparr>memory = \<lambda>_. 0, crc = \<lambda>_. 0, vadVoltage = \<lambda>_. 0, vddVoltage = \<lambda>_. 0\<rparr>) 6 AND 0xFC = 0xFC"
proof -
  have r: "- 1024 \<le> sint (- 1024 :: i16)" "sint (- 1024 :: i16) \<le> 1023" by simp_all
  show ?thesis
    using r current_roundtrip [OF r, of "\<lambda>bs. sum_list bs"
      "\<lparr>memory = \<lambda>_. 0, crc = \<lambda>_. 0, vadVoltage = \<lambda>_. 0, vddVoltage = \<lambda>_. 0\<rparr>"]
    by simp
qed

subsection \<open>The temperature encoder\<close>

text \<open>
  C8: the float-valued \<open>setTemperature(23.5)\<close> followed by \<open>getTemperature()\<close> returns
  exactly 23.  The getter returns page 0 byte 2 only; the setter stored the fraction in
  byte 1 (\<open>0x80\<close>), which the getter does not read: after \<open>setTemperature(23.0)\<close> the getter
  returns the same 23 although byte 1 differs.
\<close>

theorem temperature_getter_drops_fraction:
  "\<exists>d' d''. setTemperature_float crc8 23.5 d = Some d' \<and>
     sint (getTemperature d') = 23 \<and> getTemperature d' = memory d' 2 \<and> memory d' 1 = 0x80 \<and>
     setTemperature_float crc8 23 d = Some d'' \<and>
     getTemperature d'' = getTemperature d' \<and> memory d'' 1 = 0"
  by (simp add: setTemperature_float_def float_to_int16_def trunc_toward_zero_def Let_def
      getTemperature_def calcCRC_def)

subsection \<open>Direct access to the register memory\<close>

lemma writeMemory_out: "64 \<le> unat position \<Longrightarrow> writeMemory crc8 source len position d = (False, d)"
  by (simp add: writeMemory_def)

lemma writeMemory_in:
  assumes "unat position < 64"
  shows "writeMemory crc8 source len position d =
    (True, calcCRC_loop crc8 (unat position div 8) ((unat position + unat len) div 8)
       (d\<lparr>memory := memcpy (memory d) (unat position) source (min (unat len) (64 - unat position))\<rparr>))"
proof -
  have "(if 64 \<le> unat position + unat len then 64 - unat position else unat len)
        = min (unat len) (64 - unat position)"
    using assms by auto
  then show ?thesis using assms by (simp add: writeMemory_def Let_def drop_bit_eq_div)
qed

text \<open>
  C6: for every position, length and source buffer: when \<open>position \<ge> 64\<close>, \<open>writeMemory\<close>
  returns false and leaves the object (register memory, checksums, staged voltages)
  unchanged.  Otherwise it returns true, and the memory afterwards holds the first
  \<open>min(length, 64 - position)\<close> bytes of the source from \<open>position\<close> on and its former
  bytes elsewhere; the checksum of every page \<open>p\<close> that overlaps the written range is the
  checksum of the page's new bytes.  Exactly the pages from \<open>position div 8\<close> to
  \<open>(position + length) div 8\<close> that exist (\<open>p < 8\<close>) have their checksum recomputed; the
  staged voltages are not touched.
\<close>

theorem writeMemory_spec:
  "(64 \<le> unat position \<longrightarrow> writeMemory crc8 source len position d = (False, d)) \<and>
   (unat position < 64 \<longrightarrow>
      fst (writeMemory crc8 source len position d) = True \<and>
      memory (snd (writeMemory crc8 source len position d)) i =
        (if unat position \<le> i \<and> i < unat position + min (unat len) (64 - unat position)
         then source (i - unat position) else memory d i) \<and>
      (p * 8 < unat position + min (unat len) (64 - unat position) \<and> unat position < p * 8 + 8 \<longrightarrow>
         crc (snd (writeMemory crc8 source len position d)) p =
           crc8 (page_bytes (memory (snd (writeMemory crc8 source len position d))) p)) \<and>
      crc (snd (writeMemory crc8 source len position d)) p =
        (if unat position div 8 \<le> p \<and> p \<le> (unat position + unat len) div 8 \<and> p < 8
         then crc8 (page_bytes (memory (snd (writeMemory crc8 source len position d))) p)
         else crc d p) \<and>
      vadVoltage (snd (writeMemory crc8 source len position d)) = vadVoltage d \<and>
      vddVoltage (snd (writeMemory crc8 source len position d)) = vddVoltage d)"
proof (cases "unat position < 64")
  case False
  then show ?thesis by (simp add: writeMemory_out)
next
  case True
  have ov: "unat position div 8 \<le> p \<and> p \<le> (unat position + unat len) div 8 \<and> p < 8"
    if "p * 8 < unat position + min (unat len) (64 - unat position)" "unat position < p * 8 + 8"
    using that True by (simp add: min_def split: if_splits) arith+
  show ?thesis using True ov
    by (simp add: writeMemory_in crc_calcCRC_loop memcpy_def)
qed

theorem writeMemory_spec_witness:
  "unat (60 :: u8) < 64 \<and> 64 \<le> unat (64 :: u8) \<and>
   fst (writeMemory sum_list (\<lambda>_. 0xAB) 10 60
     \<lparr>memory = \<lambda>_. 0, crc = \<lambda>_. 0, vadVoltage = \<lambda>_. 0, vddVoltage = \<lambda>_. 0\<rparr>) \<and>
   memory (snd (writeMemory sum_list (\<lambda>_. 0xAB) 10 60
     \<lparr>memory = \<lambda>_. 0, crc = \<lambda>_. 0, vadVoltage = \<lambda>_. 0, vddVoltage = \<lambda>_. 0\<rparr>)) 63 = 0xAB \<and>
   crc (snd (writeMemory sum_list (\<lambda>_. 0xAB) 10 60
     \<lparr>memory = \<lambda>_. 0, crc = \<lambda>_. 0, vadVoltage = \<lambda>_. 0, vddVoltage = \<lambda>_. 0\<rparr>)) 7 = 0xAC \<and>
   writeMemory sum_list (\<lambda>_. 0xAB) 10 64
     \<lparr>memory = \<lambda>_. 0, crc = \<lambda>_. 0, vadVoltage = \<lambda>_. 0, vddVoltage = \<lambda>_. 0\<rparr>
   = (False, \<lparr>memory = \<lambda>_. 0, crc = \<lambda>_. 0, vadVoltage = \<lambda>_. 0, vddVoltage = \<lambda>_. 0\<rparr>)"
  using writeMemory_spec [of 60 sum_list "\<lambda>_. 0xAB" 10
      "\<lparr>memory = \<lambda>_. 0, crc = \<lambda>_. 0, vadVoltage = \<lambda>_. 0, vddVoltage = \<lambda>_. 0\<rparr>" 63 7]
    writeMemory_spec [of 64 sum_list "\<lambda>_. 0xAB" 10
      "\<lparr>memory = \<lambda>_. 0, crc = \<lambda>_. 0, vadVoltage = \<lambda>_. 0, vddVoltage = \<lambda>_. 0\<rparr>" 0 0]
  by (simp add: writeMemory_in page_bytes_def memcpy_def upt_rec)

text \<open>
  C7: for every position and length: when \<open>position \<ge> 64\<close>, \<open>readMemory\<close> returns false (and
  copies nothing).  Otherwise it copies the \<open>min(length, 64 - position)\<close> bytes of the
  register memory from \<open>position\<close> on to the start of the destination, leaves the rest of
  the destination as it was, and returns true exactly when \<open>position + length \<le> 64\<close>.
  The object is the same afterwards.
\<close>

theorem readMemory_spec:
  "(64 \<le> unat position \<longrightarrow> readMemory destination len position d = (False, destination, d)) \<and>
   (unat position < 64 \<longrightarrow>
      fst (readMemory destination len position d) = (unat position + unat len \<le> 64) \<and>
      fst (snd (readMemory destination len position d)) i =
        (if i < min (unat len) (64 - unat position) then memory d (unat position + i)
         else destination i) \<and>
      snd (snd (readMemory destination len position d)) = d)"
  by (auto simp add: readMemory_def Let_def memcpy_def)

theorem readMemory_spec_witness:
  "unat (60 :: u8) < 64 \<and> 64 \<le> unat (64 :: u8) \<and>
   fst (readMemory (\<lambda>_. 0) 10 60
     \<lparr>memory = \<lambda>i. of_nat i, crc = \<lambda>_. 0, vadVoltage = \<lambda>_. 0, vddVoltage = \<lambda>_. 0\<rparr>) = False \<and>
   fst (snd (readMemory (\<lambda>_. 0) 10 60
     \<lparr>memory = \<lambda>i. of_nat i, crc = \<lambda>_. 0, vadVoltage = \<lambda>_. 0, vddVoltage = \<lambda>_. 0\<rparr>)) 3 = 63 \<and>
   fst (readMemory (\<lambda>_. 0) 4 60
     \<lparr>memory = \<lambda>i. of_nat i, crc = \<lambda>_. 0, vadVoltage = \<lambda>_. 0, vddVoltage = \<lambda>_. 0\<rparr>) = True \<and>
   readMemory (\<lambda>_. 0) 10 64
     \<lparr>memory = \<lambda>i. of_nat i, crc = \<lambda>_. 0, vadVoltage = \<lambda>_. 0, vddVoltage = \<lambda>_. 0\<rparr>
   = (False, \<lambda>_. 0, \<lparr>memory = \<lambda>i. of_nat i, crc = \<lambda>_. 0, vadVoltage = \<lambda>_. 0, vddVoltage = \<lambda>_. 0\<rparr>)"
  using readMemory_spec [of 60 "\<lambda>_. 0" 10
      "\<lparr>memory = \<lambda>i. of_nat i, crc = \<lambda>_. 0, vadVoltage = \<lambda>_. 0, vddVoltage = \<lambda>_. 0\<rparr>" 3]
    readMemory_spec [of 60 "\<lambda>_. 0" 4
      "\<lparr>memory = \<lambda>i. of_nat i, crc = \<lambda>_. 0, vadVoltage = \<lambda>_. 0, vddVoltage = \<lambda>_. 0\<rparr>" 3]
    readMemory_spec [of 64 "\<lambda>_. 0" 10
      "\<lparr>memory = \<lambda>i. of_nat i, crc = \<lambda>_. 0, vadVoltage = \<lambda>_. 0, vddVoltage = \<lambda>_. 0\<rparr>" 0]
  by simp

text \<open>
  C10: for every page index \<open>p \<ge> 8\<close>, \<open>calcCRC(p)\<close> leaves the object unchanged.  Hence the
  loop that recomputes checksums, whose last index in \<open>writeMemory\<close> is
  \<open>(position + length) >> 3\<close> and reaches 8 and beyond, stores nothing at an index \<open>p \<ge> 8\<close>
  of the checksum array, and neither does \<open>writeMemory\<close>.
\<close>

theorem calcCRC_guard:
  "8 \<le> p \<Longrightarrow>
     calcCRC crc8 p d = d \<and>
     crc (calcCRC_loop crc8 page page_end d) p = crc d p \<and>
     crc (snd (writeMemory crc8 source len position d)) p = crc d p"
proof -
  assume p: "8 \<le> p"
  have l: "crc (calcCRC_loop crc8 page page_end d) p = crc d p"
    using p by (simp add: crc_calcCRC_loop)
  have "crc (snd (writeMemory crc8 source len position d)) p = crc d p"
  proof (cases "unat position < 64")
    case True
    then show ?thesis using p by (simp add: writeMemory_in crc_calcCRC_loop)
  next
    case False
    then show ?thesis by (simp add: writeMemory_out)
  qed
  then show ?thesis using p l by (simp add: calcCRC_out_of_range)
qed

theorem calcCRC_guard_witness:
  "(8::nat) \<le> 8 \<and> drop_bit 3 (unat (63 :: u8) + unat (1 :: u8)) = (8::nat) \<and>
   calcCRC sum_list 8 \<lparr>memory = \<lambda>_. 0, crc = \<lambda>_. 0, vadVoltage = \<lambda>_. 0, vddVoltage = \<lambda>_. 0\<rparr>
     = \<lparr>memory = \<lambda>_. 0, crc = \<lambda>_. 0, vadVoltage = \<lambda>_. 0, vddVoltage = \<lambda>_. 0\<rparr> \<and>
   crc (calcCRC_loop sum_list 7 8
     \<lparr>memory = \<lambda>_. 0, crc = \<lambda>_. 0, vadVoltage = \<lambda>_. 0, vddVoltage = \<lambda>_. 0\<rparr>) 8 = 0 \<and>
   crc (snd (writeMemory sum_list (\<lambda>_. 0xFF) 1 63
     \<lparr>memory = \<lambda>_. 0, crc = \<lambda>_. 0, vadVoltage = \<lambda>_. 0, vddVoltage = \<lambda>_. 0\<rparr>)) 8 = 0"
  using calcCRC_guard [of 8 sum_list
      "\<lparr>memory = \<lambda>_. 0, crc = \<lambda>_. 0, vadVoltage = \<lambda>_. 0, vddVoltage = \<lambda>_. 0\<rparr>"
      7 8 "\<lambda>_. 0xFF" 1 63]
  by (simp add: drop_bit_eq_div)

subsection \<open>The dispatcher\<close>

text \<open>
  C2: a Write Page transaction (\<open>0x4E\<close>) with a valid page index, the master delivering the
  bytes \<open>bs\<close> after the index.  The \<open>k\<close>-th byte delivered, for \<open>k < 8\<close>, targets offset \<open>k\<close> of
  the page.  At most 8 bytes are consumed.  A byte targeting page 0 at an offset from 1 to
  6 is dropped, the register keeps its value, and the bytes after it still go to the
  following offsets; a byte targeting offset 0 or 7 of page 0, or any offset of another
  page, is stored.  Bytes not targeted keep their values.  Then the checksum of that page,
  and of no other, is recomputed from the new bytes.  Nothing is sent and no error is
  signalled.
\<close>

theorem duty_write_page_spec:
  "rx h = 0x4E # page # bs \<Longrightarrow> unat page < 8 \<Longrightarrow>
     memory (fst (duty crc8 d h)) i =
       (if unat page * 8 \<le> i \<and> i < unat page * 8 + 8 \<and> i - unat page * 8 < length bs \<and>
           \<not> (unat page = 0 \<and> 1 \<le> i \<and> i \<le> 6)
        then bs ! (i - unat page * 8) else memory d i) \<and>
     rx (snd (duty crc8 d h)) = drop 8 bs \<and>
     crc (fst (duty crc8 d h)) =
       (crc d)(unat page := crc8 (page_bytes (memory (fst (duty crc8 d h))) (unat page))) \<and>
     vadVoltage (fst (duty crc8 d h)) = vadVoltage d \<and>
     vddVoltage (fst (duty crc8 d h)) = vddVoltage d \<and>
     tx (snd (duty crc8 d h)) = tx h \<and>
     slave_errors (snd (duty crc8 d h)) = slave_errors h"
proof -
  assume a: "rx h = 0x4E # page # bs" "unat page < 8"
  note eq = duty_write_page[OF a]
  have m: "memory (fst (duty crc8 d h)) i =
       (if unat page * 8 \<le> i \<and> i < unat page * 8 + 8 \<and> i - unat page * 8 < length bs \<and>
           \<not> (unat page = 0 \<and> 1 \<le> i \<and> i \<le> 6)
        then bs ! (i - unat page * 8) else memory d i)"
    unfolding eq by (auto simp add: memory_write_loop)
  show ?thesis
    apply (intro conjI)
          apply (rule m)
         apply (simp_all add: eq rx_write_loop crc_calcCRC a)
    done
qed

theorem duty_write_page_spec_witness:
  "rx \<lparr>rx = [0x4E, 0x00, 0x11, 0x22, 0x33, 0x44, 0x55, 0x66, 0x77, 0x88, 0x99],
        tx_room = 0, tx = [], slave_errors = []\<rparr>
     = 0x4E # 0x00 # [0x11, 0x22, 0x33, 0x44, 0x55, 0x66, 0x77, 0x88, 0x99] \<and>
   unat (0x00 :: u8) < 8 \<and>
   memory (fst (duty sum_list
     \<lparr>memory = \<lambda>_. 0xEE, crc = \<lambda>_. 0, vadVoltage = \<lambda>_. 0, vddVoltage = \<lambda>_. 0\<rparr>
     \<lparr>rx = [0x4E, 0x00, 0x11, 0x22, 0x33, 0x44, 0x55, 0x66, 0x77, 0x88, 0x99],
        tx_room = 0, tx = [], slave_errors = []\<rparr>)) 0 = 0x11 \<and>
   memory (fst (duty sum_list
     \<lparr>memory = \<lambda>_. 0xEE, crc = \<lambda>_. 0, vadVoltage = \<lambda>_. 0, vddVoltage = \<lambda>_. 0\<rparr>
     \<lparr>rx = [0x4E, 0x00, 0x11, 0x22, 0x33, 0x44, 0x55, 0x66, 0x77, 0x88, 0x99],
        tx_room = 0, tx = [], slave_errors = []\<rparr>)) 3 = 0xEE \<and>
   memory (fst (duty sum_list
     \<lparr>memory = \<lambda>_. 0xEE, crc = \<lambda>_. 0, vadVoltage = \<lambda>_. 0, vddVoltage = \<lambda>_. 0\<rparr>
     \<lparr>rx = [0x4E, 0x00, 0x11, 0x22, 0x33, 0x44, 0x55, 0x66, 0x77, 0x88, 0x99],
        tx_room = 0, tx = [], slave_errors = []\<rparr>)) 7 = 0x88 \<and>
   rx (snd (duty sum_list
     \<lparr>memory = \<lambda>_. 0xEE, crc = \<lambda>_. 0, vadVoltage = \<lambda>_. 0, vddVoltage = \<lambda>_. 0\<rparr>
     \<lparr>rx = [0x4E, 0x00, 0x11, 0x22, 0x33, 0x44, 0x55, 0x66, 0x77, 0x88, 0x99],
        tx_room = 0, tx = [], slave_errors = []\<rparr>)) = [0x99]"
  using
    duty_write_page_spec [of
      "\<lparr>rx = [0x4E, 0x00, 0x11, 0x22, 0x33, 0x44, 0x55, 0x66, 0x77, 0x88, 0x99],
         tx_room = 0, tx = [], slave_errors = []\<rparr>"
      "0x00" "[0x11, 0x22, 0x33, 0x44, 0x55, 0x66, 0x77, 0x88, 0x99]" sum_list
      "\<lparr>memory = \<lambda>_. 0xEE, crc = \<lambda>_. 0, vadVoltage = \<lambda>_. 0, vddVoltage = \<lambda>_. 0\<rparr>" 0]
    duty_write_page_spec [of
      "\<lparr>rx = [0x4E, 0x00, 0x11, 0x22, 0x33, 0x44, 0x55, 0x66, 0x77, 0x88, 0x99],
         tx_room = 0, tx = [], slave_errors = []\<rparr>"
      "0x00" "[0x11, 0x22, 0x33, 0x44, 0x55, 0x66, 0x77, 0x88, 0x99]" sum_list
      "\<lparr>memory = \<lambda>_. 0xEE, crc = \<lambda>_. 0, vadVoltage = \<lambda>_. 0, vddVoltage = \<lambda>_. 0\<rparr>" 3]
    duty_write_page_spec [of
      "\<lparr>rx = [0x4E, 0x00, 0x11, 0x22, 0x33, 0x44, 0x55, 0x66, 0x77, 0x88, 0x99],
         tx_room = 0, tx = [], slave_errors = []\<rparr>"
      "0x00" "[0x11, 0x22, 0x33, 0x44, 0x55, 0x66, 0x77, 0x88, 0x99]" sum_list
      "\<lparr>memory = \<lambda>_. 0xEE, crc = \<lambda>_. 0, vadVoltage = \<lambda>_. 0, vddVoltage = \<lambda>_. 0\<rparr>" 7]
  by simp

text \<open>
  C3: \<open>duty\<close> signals a protocol error, by one call of \<open>raiseSlaveError\<close> with the command
  byte, exactly when the command byte it received is none of \<open>0xBE\<close>, \<open>0x4E\<close>, \<open>0x48\<close>, \<open>0xB8\<close>,
  \<open>0x44\<close>, \<open>0xB4\<close>; in that case the object (register memory, checksums, staged voltages) is
  unchanged and nothing is sent.  A command that takes a page index (\<open>0xBE\<close>, \<open>0x4E\<close>,
  \<open>0x48\<close>, \<open>0xB8\<close>) followed by an index \<open>\<ge> 8\<close> ends the transaction with the object
  unchanged, no error signalled and nothing sent: only the two bytes are consumed.  When
  no command byte arrives, nothing happens.
\<close>

theorem duty_error_signal:
  "(rx h = [] \<longrightarrow> duty crc8 d h = (d, h)) \<and>
   (rx h = cmd # rest \<longrightarrow>
      slave_errors (snd (duty crc8 d h)) =
        (if cmd \<in> {0xBE, 0x4E, 0x48, 0xB8, 0x44, 0xB4} then slave_errors h
         else slave_errors h @ [cmd]) \<and>
      (cmd \<notin> {0xBE, 0x4E, 0x48, 0xB8, 0x44, 0xB4} \<longrightarrow>
         fst (duty crc8 d h) = d \<and> tx (snd (duty crc8 d h)) = tx h \<and>
         rx (snd (duty crc8 d h)) = rest) \<and>
      (cmd \<in> {0xBE, 0x4E, 0x48, 0xB8} \<and> rest = page # rest' \<and> 8 \<le> unat page \<longrightarrow>
         duty crc8 d h = (d, h\<lparr>rx := rest'\<rparr>)))"
proof (intro conjI impI)
  show "duty crc8 d h = (d, h)" if "rx h = []"
    using that by (simp add: duty_def recv_def)
next
  assume r: "rx h = cmd # rest"
  show "slave_errors (snd (duty crc8 d h)) =
        (if cmd \<in> {0xBE, 0x4E, 0x48, 0xB8, 0x44, 0xB4} then slave_errors h
         else slave_errors h @ [cmd])"
    using r
    by (auto simp add: duty_def recv_def send_def raiseSlaveError_def case_prod_unfold
        split: list.splits bool.splits)
next
  assume r: "rx h = cmd # rest" and c: "cmd \<notin> {0xBE, 0x4E, 0x48, 0xB8, 0x44, 0xB4}"
  show "fst (duty crc8 d h) = d" "tx (snd (duty crc8 d h)) = tx h" "rx (snd (duty crc8 d h)) = rest"
    using r c by (simp_all add: duty_def recv_def raiseSlaveError_def)
next
  assume r: "rx h = cmd # rest"
    and c: "cmd \<in> {0xBE, 0x4E, 0x48, 0xB8} \<and> rest = page # rest' \<and> 8 \<le> unat page"
  show "duty crc8 d h = (d, h\<lparr>rx := rest'\<rparr>)"
    using r c by (auto simp add: duty_def recv_def)
qed

theorem duty_error_signal_witness:
  "rx \<lparr>rx = [0x55, 0x01], tx_room = 9, tx = [], slave_errors = []\<rparr> = 0x55 # [0x01] \<and>
   (0x55 :: u8) \<notin> {0xBE, 0x4E, 0x48, 0xB8, 0x44, 0xB4} \<and>
   slave_errors (snd (duty sum_list
     \<lparr>memory = \<lambda>_. 0xEE, crc = \<lambda>_. 0, vadVoltage = \<lambda>_. 0, vddVoltage = \<lambda>_. 0\<rparr>
     \<lparr>rx = [0x55, 0x01], tx_room = 9, tx = [], slave_errors = []\<rparr>)) = [0x55] \<and>
   fst (duty sum_list
     \<lparr>memory = \<lambda>_. 0xEE, crc = \<lambda>_. 0, vadVoltage = \<lambda>_. 0, vddVoltage = \<lambda>_. 0\<rparr>
     \<lparr>rx = [0x55, 0x01], tx_room = 9, tx = [], slave_errors = []\<rparr>)
     = \<lparr>memory = \<lambda>_. 0xEE, crc = \<lambda>_. 0, vadVoltage = \<lambda>_. 0, vddVoltage = \<lambda>_. 0\<rparr> \<and>
   (0xBE :: u8) \<in> {0xBE, 0x4E, 0x48, 0xB8} \<and> 8 \<le> unat (0x08 :: u8) \<and>
   duty sum_list
     \<lparr>memory = \<lambda>_. 0xEE, crc = \<lambda>_. 0, vadVoltage = \<lambda>_. 0, vddVoltage = \<lambda>_. 0\<rparr>
     \<lparr>rx = [0xBE, 0x08], tx_room = 9, tx = [], slave_errors = []\<rparr>
     = (\<lparr>memory = \<lambda>_. 0xEE, crc = \<lambda>_. 0, vadVoltage = \<lambda>_. 0, vddVoltage = \<lambda>_. 0\<rparr>,
        \<lparr>rx = [], tx_room = 9, tx = [], slave_errors = []\<rparr>) \<and>
   duty sum_list
     \<lparr>memory = \<lambda>_. 0xEE, crc = \<lambda>_. 0, vadVoltage = \<lambda>_. 0, vddVoltage = \<lambda>_. 0\<rparr>
     \<lparr>rx = [], tx_room = 9, tx = [], slave_errors = []\<rparr>
     = (\<lparr>memory = \<lambda>_. 0xEE, crc = \<lambda>_. 0, vadVoltage = \<lambda>_. 0, vddVoltage = \<lambda>_. 0\<rparr>,
        \<lparr>rx = [], tx_room = 9, tx = [], slave_errors = []\<rparr>)"
  using
    duty_error_signal [of
      "\<lparr>rx = [0x55, 0x01], tx_room = 9, tx = [], slave_errors = []\<rparr>" sum_list
      "\<lparr>memory = \<lambda>_. 0xEE, crc = \<lambda>_. 0, vadVoltage = \<lambda>_. 0, vddVoltage = \<lambda>_. 0\<rparr>"
      "0x55" "[0x01]" "0x01" "[]"]
    duty_error_signal [of
      "\<lparr>rx = [0xBE, 0x08], tx_room = 9, tx = [], slave_errors = []\<rparr>" sum_list
      "\<lparr>memory = \<lambda>_. 0xEE, crc = \<lambda>_. 0, vadVoltage = \<lambda>_. 0, vddVoltage = \<lambda>_. 0\<rparr>"
      "0xBE" "[0x08]" "0x08" "[]"]
    duty_error_signal [of
      "\<lparr>rx = [], tx_room = 9, tx = [], slave_errors = []\<rparr>" sum_list
      "\<lparr>memory = \<lambda>_. 0xEE, crc = \<lambda>_. 0, vadVoltage = \<lambda>_. 0, vddVoltage = \<lambda>_. 0\<rparr>"
      "0x00" "[]" "0x00" "[]"]
  by simp

subsection \<open>Checksum consistency\<close>

lemma crc_ok_setters:
  assumes "crc_ok crc8 d"
  shows "crc_ok crc8 (setCurrent crc8 v d)"
    and "crc_ok crc8 (setTemperature_int8 crc8 t d)"
    and "setTemperature_float crc8 x d = Some d' \<Longrightarrow> crc_ok crc8 d'"
    and "crc_ok crc8 (setVADVoltage w d)"
    and "crc_ok crc8 (setVDDVoltage w d)"
proof -
  show "crc_ok crc8 (setCurrent crc8 v d)"
    unfolding setCurrent_def Let_def
    by (rule crc_ok_calcCRC[OF assms]) auto
  show "crc_ok crc8 (setTemperature_int8 crc8 t d)"
    unfolding setTemperature_int8_def Let_def
    by (rule crc_ok_calcCRC[OF assms]) auto
  show "crc_ok crc8 d'" if "setTemperature_float crc8 x d = Some d'"
  proof -
    from that obtain m where "d' = calcCRC crc8 0 (d\<lparr>memory := m\<rparr>)"
      and "\<And>i. \<not> (0 * 8 \<le> i \<and> i < 0 * 8 + 8) \<Longrightarrow> m i = memory d i"
      by (auto simp add: setTemperature_float_def Let_def split: option.splits)
    then show ?thesis using crc_ok_calcCRC[OF assms, of 0 "d\<lparr>memory := m\<rparr>"] by simp
  qed
  show "crc_ok crc8 (setVADVoltage w d)" "crc_ok crc8 (setVDDVoltage w d)"
    using assms by (simp_all add: crc_ok_iff setVADVoltage_def setVDDVoltage_def Let_def)
qed

lemma crc_ok_writeMemory:
  assumes "crc_ok crc8 d"
  shows "crc_ok crc8 (snd (writeMemory crc8 source len position d))"
proof (cases "unat position < 64")
  case False
  then show ?thesis using assms by (simp add: writeMemory_out)
next
  case True
  let ?n = "min (unat len) (64 - unat position)"
  let ?m = "memcpy (memory d) (unat position) source ?n"
  have "crc (calcCRC_loop crc8 (unat position div 8) ((unat position + unat len) div 8) (d\<lparr>memory := ?m\<rparr>)) p
        = crc8 (page_bytes ?m p)" if p: "p < 8" for p
  proof (cases "unat position div 8 \<le> p \<and> p \<le> (unat position + unat len) div 8")
    case True
    then show ?thesis using p by (simp add: crc_calcCRC_loop)
  next
    case False
    then have "p * 8 + 8 \<le> unat position \<or> unat position + unat len < p * 8" by arith
    then have "page_bytes ?m p = page_bytes (memory d) p"
      by (intro page_bytes_cong) (auto simp add: memcpy_def)
    then show ?thesis using False p assms by (auto simp add: crc_calcCRC_loop crc_ok_iff)
  qed
  then show ?thesis using True by (simp add: writeMemory_in crc_ok_iff)
qed

lemma reachable_crc_ok: "reachable crc8 d \<Longrightarrow> crc_ok crc8 d"
proof (induction rule: reachable.induct)
  case (r_init d0)
  show ?case by (simp add: DS2438New_init_def crc_ok_clearMemory)
next
  case (r_readMemory d destination len position)
  then show ?case by (simp add: readMemory_def Let_def)
qed (simp_all add: crc_ok_clearMemory crc_ok_writeMemory crc_ok_setters duty_crc_ok)

text \<open>
  C1: in every state the object is in after a public member function has returned
  (the constructor, \<open>clearMemory\<close>, \<open>writeMemory\<close>, both \<open>setTemperature\<close>, \<open>setCurrent\<close>,
  the voltage setters, and \<open>duty\<close> whatever command it handled, Write Page, Convert
  Temperature and Convert Voltage among them), for every page \<open>p < 8\<close> the stored checksum
  \<open>crc[p]\<close> is \<open>crc8\<close> of the 8 bytes of page \<open>p\<close>.
\<close>

theorem crc_consistent:
  "reachable crc8 d \<Longrightarrow> p < 8 \<Longrightarrow> crc d p = crc8 (page_bytes (memory d) p)"
  using reachable_crc_ok [of crc8 d] by (simp add: crc_ok_iff)

theorem crc_consistent_witness:
  "reachable sum_list
     (fst (duty sum_list
       (DS2438New_init sum_list
         \<lparr>memory = \<lambda>_. 0, crc = \<lambda>_. 0, vadVoltage = \<lambda>_. 0, vddVoltage = \<lambda>_. 0\<rparr>)
       \<lparr>rx = [0x4E, 0x01, 0xAA, 0xBB], tx_room = 0, tx = [], slave_errors = []\<rparr>)) \<and>
   (1::nat) < 8 \<and>
   crc (fst (duty sum_list
       (DS2438New_init sum_list
         \<lparr>memory = \<lambda>_. 0, crc = \<lambda>_. 0, vadVoltage = \<lambda>_. 0, vddVoltage = \<lambda>_. 0\<rparr>)
       \<lparr>rx = [0x4E, 0x01, 0xAA, 0xBB], tx_room = 0, tx = [], slave_errors = []\<rparr>)) 1 =
   sum_list (page_bytes (memory (fst (duty sum_list
       (DS2438New_init sum_list
         \<lparr>memory = \<lambda>_. 0, crc = \<lambda>_. 0, vadVoltage = \<lambda>_. 0, vddVoltage = \<lambda>_. 0\<rparr>)
       \<lparr>rx = [0x4E, 0x01, 0xAA, 0xBB], tx_room = 0, tx = [], slave_errors = []\<rparr>))) 1) \<and>
   page_bytes (memory (fst (duty sum_list
       (DS2438New_init sum_list
         \<lparr>memory = \<lambda>_. 0, crc = \<lambda>_. 0, vadVoltage = \<lambda>_. 0, vddVoltage = \<lambda>_. 0\<rparr>)
       \<lparr>rx = [0x4E, 0x01, 0xAA, 0xBB], tx_room = 0, tx = [], slave_errors = []\<rparr>))) 1
     = [0xAA, 0xBB, 0x23, 0x58, 0xFF, 0x08, 0x00, 0xFC]"
proof -
  have v: "page_bytes (memory (fst (duty sum_list
       (DS2438New_init sum_list
         \<lparr>memory = \<lambda>_. 0, crc = \<lambda>_. 0, vadVoltage = \<lambda>_. 0, vddVoltage = \<lambda>_. 0\<rparr>)
       \<lparr>rx = [0x4E, 0x01, 0xAA, 0xBB], tx_room = 0, tx = [], slave_errors = []\<rparr>))) 1
     = [0xAA, 0xBB, 0x23, 0x58, 0xFF, 0x08, 0x00, 0xFC]"
    apply (subst duty_write_page [of _ 1 "[0xAA, 0xBB]"])
      apply simp
     apply simp
    apply (simp add: page_bytes_def memory_write_loop DS2438New_init_def clearMemory_def
        Let_def memcpy_def MemDS2438_def upt_rec)
    done
  have r: "reachable sum_list
     (fst (duty sum_list
       (DS2438New_init sum_list
         \<lparr>memory = \<lambda>_. 0, crc = \<lambda>_. 0, vadVoltage = \<lambda>_. 0, vddVoltage = \<lambda>_. 0\<rparr>)
       \<lparr>rx = [0x4E, 0x01, 0xAA, 0xBB], tx_room = 0, tx = [], slave_errors = []\<rparr>))"
    by (intro reachable.r_duty reachable.r_init)
  show ?thesis using r v crc_consistent [OF r, of 1] by simp
qed

end
